theory Spec2Isabelle
  imports Main "HOL-Library.Word" "HOL-Library.Char_ord" "HOL-Library.List_Lexorder"
begin

unbundle bit_operations_syntax

section \<open>Go runtime conventions used by the embedding\<close>

text \<open>
  Go's \<open>int\<close>, \<open>int64\<close> and \<open>time.Duration\<close> are 64-bit two's-complement integers
  (a 64-bit platform is assumed). They are modelled as \<open>int\<close> with the wrap-around
  written out. Go's \<open>/\<close> truncates towards zero and \<open>%\<close> takes the sign of the
  dividend; a zero divisor and an out-of-range index are run-time panics, which the
  model returns as values. An \<open>error\<close> is its message; \<open>None\<close> is the nil error.
\<close>

datatype go_panic = IntegerDivideByZero | IndexOutOfRange

type_synonym go_error = string

definition wrap64 :: "int \<Rightarrow> int" where
  "wrap64 x = (x + 2 ^ 63) mod 2 ^ 64 - 2 ^ 63"

definition trunc_quo :: "int \<Rightarrow> int \<Rightarrow> int" where
  "trunc_quo a b = (if (a < 0) = (b < 0) then \<bar>a\<bar> div \<bar>b\<bar> else - (\<bar>a\<bar> div \<bar>b\<bar>))"

definition go_quo :: "int \<Rightarrow> int \<Rightarrow> int" where
  "go_quo a b = wrap64 (trunc_quo a b)"

definition go_rem :: "int \<Rightarrow> int \<Rightarrow> int" where
  "go_rem a b = a - b * trunc_quo a b"

text \<open>
  A Go \<open>map[string]string\<close> is an association list with distinct keys, in the order in
  which a \<open>range\<close> loop happens to visit it. Reading a missing key gives the empty string.
\<close>

type_synonym string_map = "(string \<times> string) list"

definition map_index :: "string_map \<Rightarrow> string \<Rightarrow> string" where
  "map_index m k = (case map_of m k of None \<Rightarrow> '''' | Some v \<Rightarrow> v)"

subsection \<open>Package strings\<close>

definition HasPrefix :: "string \<Rightarrow> string \<Rightarrow> bool" where
  "HasPrefix s p = (length p \<le> length s \<and> take (length p) s = p)"

fun Join :: "string list \<Rightarrow> string \<Rightarrow> string" where
  "Join [] sep = ''''"
| "Join [e] sep = e"
| "Join (e # es) sep = e @ sep @ Join es sep"

subsection \<open>Package time\<close>

text \<open>
  An instant (\<open>time.Time\<close>) is its number of nanoseconds on the absolute time line,
  counted from the Unix epoch; a \<open>time.Duration\<close> is a number of nanoseconds.
  \<open>Time.Sub\<close> saturates at the largest and smallest duration.
\<close>

type_synonym instant = int

definition Nanosecond :: int where "Nanosecond = 1"
definition Second :: int where "Second = 1000000000 * Nanosecond"
definition Hour :: int where "Hour = 3600 * Second"

definition maxDuration :: int where "maxDuration = 2 ^ 63 - 1"
definition minDuration :: int where "minDuration = - (2 ^ 63)"

definition time_Sub :: "instant \<Rightarrow> instant \<Rightarrow> int" where
  "time_Sub t u =
     (let d = t - u
      in if d < minDuration then minDuration
         else if maxDuration < d then maxDuration
         else d)"

subsection \<open>Package crypto/sha256 and the \<open>%x\<close> verb\<close>

text \<open>
  \<open>sha256.Sum256\<close> belongs to Go's standard library, not to the repository: it is a
  parameter of the model, a function from byte strings to values of Go's type
  \<open>[32]byte\<close>. The type \<open>digest\<close> is that array type.
\<close>

type_synonym byte = "8 word"

typedef digest = "{bs :: byte list. length bs = 32}"
  by (rule exI [of _ "replicate 32 0"]) simp

definition digest_bytes :: "digest \<Rightarrow> byte list" where
  "digest_bytes h = Rep_digest h"

definition bytes_of :: "string \<Rightarrow> byte list" where
  "bytes_of s = map (\<lambda>c. of_char c) s"

text \<open>\<open>fmt.Sprintf("%x", bs)\<close> on a byte slice: two lower-case hexadecimal digits a byte.\<close>

definition hexdigit :: "nat \<Rightarrow> char" where
  "hexdigit n = ''0123456789abcdef'' ! n"

definition hex :: "byte list \<Rightarrow> string" where
  "hex bs = concat (map (\<lambda>b. [hexdigit (unat b div 16), hexdigit (unat b mod 16)]) bs)"

text \<open>The characters that \<open>%x\<close> prints.\<close>

definition lower_hex_char :: "char \<Rightarrow> bool" where
  "lower_hex_char c = (c \<in> set ''0123456789abcdef'')"

section \<open>Package models\<close>

record Layer =
  Layer_ID :: int
  ScheduleID :: int
  Layer_Name :: string
  RotationType :: string
  RotationStart :: instant
  DurationHours :: int
  Users :: "string list"

record Schedule =
  Schedule_ID :: int
  Schedule_Name :: string
  Schedule_Description :: string
  Timezone :: string
  Schedule_CreatedAt :: instant
  Schedule_UpdatedAt :: instant
  Layers :: "Layer list"

record EscalationPolicy =
  Policy_ID :: int
  ChainID :: int
  StepNumber :: int
  PolicyType :: string
  Target :: string
  WaitSeconds :: int

record AlertGroup =
  ID :: int
  Fingerprint :: string
  Status :: string
  Severity :: string
  Summary :: string
  Description :: string
  Labels :: string_map
  Annotations :: string_map
  EscalationChainID :: "int option"
  AcknowledgedBy :: "string option"
  AcknowledgedAt :: "instant option"
  ResolvedAt :: "instant option"
  CreatedAt :: instant
  UpdatedAt :: instant

text \<open>
  \<open>Layer.GetOnCallUser\<close>. The Go function returns the pair \<open>(string, error)\<close>; the
  model returns that pair, or the panic that ends the call.
\<close>

definition rotationInterval :: "Layer \<Rightarrow> int" where
  "rotationInterval l =
     (if RotationType l = ''daily'' then 24 * Hour
      else if RotationType l = ''weekly'' then 7 * 24 * Hour
      else wrap64 (DurationHours l * Hour))"

definition GetOnCallUser :: "Layer \<Rightarrow> instant \<Rightarrow> go_panic + (string \<times> go_error option)" where
  "GetOnCallUser l t =
     (if length (Users l) = 0 then Inr ('''', None)
      else
        let duration = time_Sub t (RotationStart l) in
        if rotationInterval l = 0 then Inl IntegerDivideByZero
        else
          let rotations = go_quo duration (rotationInterval l);
              userIndex = go_rem rotations (int (length (Users l)))
          in if userIndex < 0 \<or> int (length (Users l)) \<le> userIndex then Inl IndexOutOfRange
             else Inr (Users l ! nat userIndex, None))"

text \<open>
  The resolution in the words of the specification, to compare the code with:
  \<open>rotations = floor(elapsed / interval)\<close> and \<open>userIndex = rotations mod len(users)\<close>,
  wrapped into the list (\<open>div\<close> and \<open>mod\<close> on \<open>int\<close> are the floor division and its
  non-negative remainder).
\<close>

definition spec_on_call_user :: "Layer \<Rightarrow> instant \<Rightarrow> string" where
  "spec_on_call_user l t =
     (let elapsed = t - RotationStart l;
          rotations = elapsed div rotationInterval l;
          userIndex = rotations mod int (length (Users l))
      in Users l ! nat userIndex)"

text \<open>
  \<open>Schedule.GetCurrentOnCall\<close>: the loop over the layers, in their order. A panic of a
  layer ends the call.
\<close>

fun layers_loop :: "Layer list \<Rightarrow> instant \<Rightarrow> go_panic + (string \<times> go_error option)" where
  "layers_loop [] t = Inr ('''', None)"
| "layers_loop (layer # rest) t =
     (case GetOnCallUser layer t of
        Inl p \<Rightarrow> Inl p
      | Inr (user, err) \<Rightarrow>
          if err = None \<and> user \<noteq> '''' then Inr (user, None)
          else layers_loop rest t)"

definition GetCurrentOnCall :: "Schedule \<Rightarrow> instant \<Rightarrow> go_panic + (string \<times> go_error option)" where
  "GetCurrentOnCall s t = layers_loop (Layers s) t"

section \<open>Package store\<close>

text \<open>
  The table \<open>alert_groups\<close> of the schema: one record per row, a nullable column as an
  option. The store is the connection state and the table; \<open>alert_groups_seq\<close> is the
  largest row id drawn so far (the column is \<open>AUTOINCREMENT\<close>).
\<close>

record alert_groups_row =
  col_id :: int
  col_fingerprint :: string
  col_status :: string
  col_severity :: "string option"
  col_summary :: "string option"
  col_description :: "string option"
  col_labels :: "string option"
  col_annotations :: "string option"
  col_escalation_chain_id :: "int option"
  col_acknowledged_by :: "string option"
  col_acknowledged_at :: "instant option"
  col_resolved_at :: "instant option"
  col_created_at :: "instant option"
  col_updated_at :: "instant option"

record Store =
  db_closed :: bool
  alert_groups :: "alert_groups_row list"
  alert_groups_seq :: int

definition Close :: "Store \<Rightarrow> Store" where
  "Close st = st\<lparr>db_closed := True\<rparr>"

section \<open>Package api: alert ingestion\<close>

record PrometheusAlert =
  Alert_Status :: string
  Alert_Labels :: string_map
  Alert_Annotations :: string_map
  StartsAt :: instant
  EndsAt :: instant
  GeneratorURL :: string

record PrometheusWebhook =
  Version :: string
  GroupKey :: string
  Webhook_Status :: string
  Alerts :: "PrometheusAlert list"

text \<open>\<open>generateFingerprint\<close>: the labels that define the identity of an alert, hashed.\<close>

definition skipped_label :: "string \<Rightarrow> bool" where
  "skipped_label k = (k = ''severity'' \<or> HasPrefix k ''__'')"

definition generateFingerprint :: "(byte list \<Rightarrow> digest) \<Rightarrow> string_map \<Rightarrow> string" where
  "generateFingerprint Sum256 labels =
     (let keys = sort (map fst labels);
          parts = map (\<lambda>k. k @ ''='' @ map_index labels k)
                    (filter (\<lambda>k. \<not> skipped_label k) keys);
          fingerprint = Join parts ''|'';
          hash = Sum256 (bytes_of fingerprint)
      in hex (take 8 (digest_bytes hash)))"

text \<open>
  \<open>upsertAlert\<close>: the statement \<open>INSERT ... ON CONFLICT(fingerprint) DO UPDATE SET ...
  RETURNING id\<close> on the table, and the scan of the returned id into the alert. The
  column \<open>fingerprint\<close> is \<open>UNIQUE\<close>, so at most one row is in conflict. SQLite draws the
  next row id before it finds the conflict, so an update uses an id up as well. A closed
  database answers every query with an error; other failures of the driver (an I/O error,
  a locked file) are outside the model.
\<close>

definition inserted_row :: "int \<Rightarrow> AlertGroup \<Rightarrow> string \<Rightarrow> string \<Rightarrow> alert_groups_row" where
  "inserted_row new_id alert labelsJSON annotationsJSON =
     \<lparr> col_id = new_id, col_fingerprint = Fingerprint alert, col_status = Status alert,
       col_severity = Some (Severity alert), col_summary = Some (Summary alert),
       col_description = Some (Description alert), col_labels = Some labelsJSON,
       col_annotations = Some annotationsJSON, col_escalation_chain_id = None,
       col_acknowledged_by = None, col_acknowledged_at = None, col_resolved_at = None,
       col_created_at = Some (CreatedAt alert), col_updated_at = Some (UpdatedAt alert) \<rparr>"

definition updated_row :: "alert_groups_row \<Rightarrow> AlertGroup \<Rightarrow> string \<Rightarrow> string \<Rightarrow> alert_groups_row" where
  "updated_row r alert labelsJSON annotationsJSON =
     r\<lparr> col_status := Status alert, col_severity := Some (Severity alert),
        col_summary := Some (Summary alert), col_description := Some (Description alert),
        col_labels := Some labelsJSON, col_annotations := Some annotationsJSON,
        col_updated_at := Some (UpdatedAt alert) \<rparr>"

definition upsertAlert :: "Store \<Rightarrow> AlertGroup \<Rightarrow> string \<Rightarrow> string \<Rightarrow> (go_error + AlertGroup) \<times> Store" where
  "upsertAlert st alert labelsJSON annotationsJSON =
     (if db_closed st then (Inl ''sql: database is closed'', st)
      else
        case find (\<lambda>r. col_fingerprint r = Fingerprint alert) (alert_groups st) of
          None \<Rightarrow>
            let new_id = alert_groups_seq st + 1
            in (Inr (alert\<lparr>ID := new_id\<rparr>),
                st\<lparr>alert_groups :=
                      alert_groups st @ [inserted_row new_id alert labelsJSON annotationsJSON],
                    alert_groups_seq := new_id\<rparr>)
        | Some conflict \<Rightarrow>
            (Inr (alert\<lparr>ID := col_id conflict\<rparr>),
             st\<lparr>alert_groups :=
                   map (\<lambda>r. if col_fingerprint r = Fingerprint alert
                            then updated_row r alert labelsJSON annotationsJSON else r)
                     (alert_groups st),
                 alert_groups_seq := alert_groups_seq st + 1\<rparr>))"

text \<open>
  The processor runs in a world that holds the store and the wall clock: \<open>time.Now\<close>
  returns the next reading of the clock. \<open>json.Marshal\<close> on a \<open>map[string]string\<close> is a
  parameter of the model, like \<open>sha256.Sum256\<close> (it cannot fail on such a map). It sees
  the entries of the map only: a nil map and an empty map are the same list here, though
  the encoder writes \<open>null\<close> for the one and \<open>{}\<close> for the other.
\<close>

record world =
  db :: Store
  clock :: "nat \<Rightarrow> instant"
  reads :: nat

definition time_Now :: "world \<Rightarrow> instant \<times> world" where
  "time_Now w = (clock w (reads w), w\<lparr>reads := Suc (reads w)\<rparr>)"

definition alert_severity :: "PrometheusAlert \<Rightarrow> string" where
  "alert_severity alert =
     (let severity = map_index (Alert_Labels alert) ''severity''
      in if severity = '''' then ''info'' else severity)"

definition alert_summary :: "PrometheusAlert \<Rightarrow> string" where
  "alert_summary alert =
     (let summary = map_index (Alert_Annotations alert) ''summary''
      in if summary = '''' then map_index (Alert_Labels alert) ''alertname'' else summary)"

definition alert_description :: "PrometheusAlert \<Rightarrow> string" where
  "alert_description alert = map_index (Alert_Annotations alert) ''description''"

text \<open>
  The body of the loop of \<open>ProcessPrometheusWebhook\<close>, for one alert of the batch:
  \<open>alertGroup_of\<close> is the struct literal it builds, \<open>processAlert\<close> the whole body.
\<close>

definition alertGroup_of :: "string \<Rightarrow> PrometheusAlert \<Rightarrow> instant \<Rightarrow> instant \<Rightarrow> AlertGroup" where
  "alertGroup_of fingerprint alert created updated =
     \<lparr> ID = 0, Fingerprint = fingerprint, Status = Alert_Status alert,
       Severity = alert_severity alert, Summary = alert_summary alert,
       Description = alert_description alert,
       Labels = Alert_Labels alert, Annotations = Alert_Annotations alert,
       EscalationChainID = None, AcknowledgedBy = None, AcknowledgedAt = None,
       ResolvedAt = None, CreatedAt = created, UpdatedAt = updated \<rparr>"

definition processAlert ::
  "(byte list \<Rightarrow> digest) \<Rightarrow> (string_map \<Rightarrow> string) \<Rightarrow> world \<Rightarrow> PrometheusAlert
     \<Rightarrow> (go_error + AlertGroup) \<times> world" where
  "processAlert Sum256 json_Marshal w alert =
     (let fingerprint = generateFingerprint Sum256 (Alert_Labels alert);
          labelsJSON = json_Marshal (Alert_Labels alert);
          annotationsJSON = json_Marshal (Alert_Annotations alert);
          (created, w1) = time_Now w;
          (updated, w2) = time_Now w1;
          alertGroup = alertGroup_of fingerprint alert created updated;
          (res, st) = upsertAlert (db w2) alertGroup labelsJSON annotationsJSON
      in case res of
           Inl err \<Rightarrow> (Inl (''failed to store alert: '' @ err), w2\<lparr>db := st\<rparr>)
         | Inr stored \<Rightarrow> (Inr stored, w2\<lparr>db := st\<rparr>))"

fun alerts_loop ::
  "(byte list \<Rightarrow> digest) \<Rightarrow> (string_map \<Rightarrow> string) \<Rightarrow> world \<Rightarrow> PrometheusAlert list
     \<Rightarrow> AlertGroup list \<Rightarrow> (go_error + AlertGroup list) \<times> world" where
  "alerts_loop Sum256 json_Marshal w [] alertGroups = (Inr alertGroups, w)"
| "alerts_loop Sum256 json_Marshal w (alert # rest) alertGroups =
     (case processAlert Sum256 json_Marshal w alert of
        (Inl err, w') \<Rightarrow> (Inl err, w')
      | (Inr alertGroup, w') \<Rightarrow>
          alerts_loop Sum256 json_Marshal w' rest (alertGroups @ [alertGroup]))"

definition ProcessPrometheusWebhook ::
  "(byte list \<Rightarrow> digest) \<Rightarrow> (string_map \<Rightarrow> string) \<Rightarrow> world \<Rightarrow> PrometheusWebhook
     \<Rightarrow> (go_error + AlertGroup list) \<times> world" where
  "ProcessPrometheusWebhook Sum256 json_Marshal w webhook =
     alerts_loop Sum256 json_Marshal w (Alerts webhook) []"

section \<open>Package notifier\<close>

text \<open>
  A notifier talks to the network through \<open>net/http\<close>. The calls it makes are the
  parameters of the model: the JSON encoding of the message built from the alert, the
  check of the URL when the request is created, and the round trip, which ends in a
  transport error or in the status code of the response.
\<close>

record http_request =
  Method :: string
  URL :: string
  ContentType :: string
  Body :: string

record net =
  slack_json :: "AlertGroup \<Rightarrow> go_error + string"
  webhook_json :: "AlertGroup \<Rightarrow> go_error + string"
  url_error :: "string \<Rightarrow> go_error option"
  Do :: "http_request \<Rightarrow> go_error + int"

datatype notify_error = Wrapped string go_error | BadStatus string int

record SlackNotifier =
  webhookURL :: string

record WebhookNotifier =
  timeout :: int

definition StatusOK :: int where "StatusOK = 200"

definition SlackNotifier_Send ::
  "net \<Rightarrow> SlackNotifier \<Rightarrow> AlertGroup \<Rightarrow> string \<Rightarrow> notify_error option" where
  "SlackNotifier_Send env n alert recipient =
     (case slack_json env alert of
        Inl err \<Rightarrow> Some (Wrapped ''failed to marshal slack message'' err)
      | Inr payload \<Rightarrow>
          (let url = (if recipient \<noteq> '''' then recipient else webhookURL n) in
           (case url_error env url of
              Some err \<Rightarrow> Some (Wrapped ''failed to create request'' err)
            | None \<Rightarrow>
              (case Do env \<lparr> Method = ''POST'', URL = url,
                              ContentType = ''application/json'', Body = payload \<rparr> of
                 Inl err \<Rightarrow> Some (Wrapped ''failed to send slack notification'' err)
               | Inr StatusCode \<Rightarrow>
                   if StatusCode \<noteq> StatusOK
                   then Some (BadStatus ''slack webhook returned status'' StatusCode)
                   else None))))"

definition WebhookNotifier_Send ::
  "net \<Rightarrow> WebhookNotifier \<Rightarrow> AlertGroup \<Rightarrow> string \<Rightarrow> notify_error option" where
  "WebhookNotifier_Send env n alert recipient =
     (case webhook_json env alert of
        Inl err \<Rightarrow> Some (Wrapped ''failed to marshal webhook payload'' err)
      | Inr payloadJSON \<Rightarrow>
          (case url_error env recipient of
            Some err \<Rightarrow> Some (Wrapped ''failed to create webhook request'' err)
          | None \<Rightarrow>
              (case Do env \<lparr> Method = ''POST'', URL = recipient,
                              ContentType = ''application/json'', Body = payloadJSON \<rparr> of
                 Inl err \<Rightarrow> Some (Wrapped ''failed to send webhook'' err)
               | Inr StatusCode \<Rightarrow>
                   if StatusCode < 200 \<or> 300 \<le> StatusCode
                   then Some (BadStatus ''webhook returned status'' StatusCode)
                   else None)))"

section \<open>Escalation runs\<close>

text \<open>
  The repository declares escalation chains and their steps (\<open>EscalationPolicy\<close>, the
  tables \<open>escalation_chains\<close> and \<open>escalation_policies\<close>), but holds no engine that
  runs them. This section models the engine from the specification, section 4.4.
\<close>

text \<open>Modelled from the spec: the states of an escalation run; the repository has no
  escalation engine. "States: pending, notifying, waiting, stopped_acknowledged,
  stopped_resolved, stopped_exhausted (terminal)".\<close>

datatype run_state =
  pending | notifying | waiting | stopped_acknowledged | stopped_resolved | stopped_exhausted

text \<open>Modelled from the spec: which states are terminal (the engine is missing from the
  repository).\<close>

fun terminal :: "run_state \<Rightarrow> bool" where
  "terminal stopped_acknowledged = True"
| "terminal stopped_resolved = True"
| "terminal stopped_exhausted = True"
| "terminal s = False"

text \<open>Modelled from the spec: an escalation run (absent from the repository), which
  "binds one AlertGroup to one EscalationChain execution: current step index, start time,
  terminal flag"; the terminal flag is read off the state.\<close>

record EscalationRun =
  run_fingerprint :: string
  run_steps :: "EscalationPolicy list"
  run_index :: nat
  run_started :: instant
  run_state :: run_state

text \<open>Modelled from the spec: the runs the missing engine holds, oldest first.\<close>

type_synonym engine = "EscalationRun list"

text \<open>Modelled from the spec: the non-terminal runs of a fingerprint (the engine is
  missing from the repository).\<close>

definition active_runs :: "engine \<Rightarrow> string \<Rightarrow> EscalationRun list" where
  "active_runs runs fp =
     filter (\<lambda>r. run_fingerprint r = fp \<and> \<not> terminal (run_state r)) runs"

text \<open>Modelled from the spec: starting a run, an operation of the missing engine.
  "Starting a new run for a fingerprint that already has a non-terminal run is a no-op";
  otherwise the run is created in state pending, with the steps of the chain "ordered by
  stepNumber".\<close>

definition start_run :: "engine \<Rightarrow> string \<Rightarrow> EscalationPolicy list \<Rightarrow> instant \<Rightarrow> engine" where
  "start_run runs fp chain now =
     (if active_runs runs fp \<noteq> [] then runs
      else runs @ [\<lparr> run_fingerprint = fp, run_steps = sort_key StepNumber chain,
                      run_index = 0, run_started = now, run_state = pending \<rparr>])"

text \<open>Modelled from the spec: entering step \<open>i\<close> of a run of the missing engine. A notify
  step puts the run in notifying, a wait step in waiting; "when the last step completes
  ... move to stopped_exhausted", which is also where an empty chain ends.\<close>

definition enter_step :: "EscalationRun \<Rightarrow> nat \<Rightarrow> EscalationRun" where
  "enter_step r i =
     (if i < length (run_steps r)
      then r\<lparr> run_index := i,
              run_state := (if PolicyType (run_steps r ! i) = ''wait'' then waiting else notifying) \<rparr>
      else r\<lparr> run_state := stopped_exhausted \<rparr>)"

text \<open>Modelled from the spec: one step of a run of the missing engine. A pending run
  enters its first step; a run whose notify step was dispatched or whose wait elapsed enters
  the next one ("advance to next step regardless of send success"); a terminal run stays.\<close>

definition advance :: "EscalationRun \<Rightarrow> EscalationRun" where
  "advance r =
     (if terminal (run_state r) then r
      else if run_state r = pending then enter_step r 0
      else enter_step r (Suc (run_index r)))"

text \<open>Modelled from the spec: the reaction of the missing engine to a status change of the
  bound alert group. "Any time the bound AlertGroup transitions to acknowledged: ... move to
  stopped_acknowledged, regardless of current step", and likewise for resolved.\<close>

definition stop_runs :: "engine \<Rightarrow> string \<Rightarrow> run_state \<Rightarrow> engine" where
  "stop_runs runs fp s =
     map (\<lambda>r. if run_fingerprint r = fp \<and> \<not> terminal (run_state r)
              then r\<lparr> run_state := s \<rparr> else r) runs"

text \<open>Modelled from the spec: what can happen to the missing engine: a run is started,
  the run at a position completes its current step, or an alert group is acknowledged or
  resolved.\<close>

datatype engine_event =
  StartRun string "EscalationPolicy list" instant
  | StepDone nat
  | Acknowledged string
  | Resolved string

text \<open>Modelled from the spec: the effect of one event on the runs of the missing engine.\<close>

fun apply_event :: "engine \<Rightarrow> engine_event \<Rightarrow> engine" where
  "apply_event runs (StartRun fp chain now) = start_run runs fp chain now"
| "apply_event runs (StepDone i) =
     (if i < length runs then runs[i := advance (runs ! i)] else runs)"
| "apply_event runs (Acknowledged fp) = stop_runs runs fp stopped_acknowledged"
| "apply_event runs (Resolved fp) = stop_runs runs fp stopped_resolved"

text \<open>Modelled from the spec: the runs of the missing engine after a sequence of events,
  starting with no run.\<close>

definition engine_after :: "engine_event list \<Rightarrow> engine" where
  "engine_after evs = foldl apply_event [] evs"

section \<open>Inputs of the repository's tests and examples\<close>

text \<open>2024-01-01T00:00:00Z, the rotation start of the schedule tests.\<close>

definition jan1_2024 :: instant where
  "jan1_2024 = 1704067200 * Second"

definition daily_layer :: Layer where
  "daily_layer = \<lparr> Layer_ID = 1, ScheduleID = 1, Layer_Name = ''primary'',
     RotationType = ''daily'', RotationStart = jan1_2024, DurationHours = 0,
     Users = [''alice'', ''bob'', ''charlie''] \<rparr>"


text \<open>The weekly layer of the schedule test, behind a layer with no users, queried at
  2024-01-15T12:00:00Z.\<close>

definition weekly_layer :: Layer where
  "weekly_layer = \<lparr> Layer_ID = 1, ScheduleID = 1, Layer_Name = ''weekly'',
     RotationType = ''weekly'', RotationStart = jan1_2024, DurationHours = 0,
     Users = [''alice'', ''bob'', ''charlie''] \<rparr>"

definition empty_layer :: Layer where
  "empty_layer = \<lparr> Layer_ID = 3, ScheduleID = 1, Layer_Name = ''nobody'',
     RotationType = ''daily'', RotationStart = jan1_2024, DurationHours = 0, Users = [] \<rparr>"

definition platform_schedule :: Schedule where
  "platform_schedule = \<lparr> Schedule_ID = 1, Schedule_Name = ''Platform Team'',
     Schedule_Description = '''', Timezone = ''UTC'', Schedule_CreatedAt = jan1_2024,
     Schedule_UpdatedAt = jan1_2024, Layers = [empty_layer, weekly_layer] \<rparr>"

text \<open>A schedule with the daily layer as primary and the weekly layer as backup.\<close>

definition primary_backup_schedule :: Schedule where
  "primary_backup_schedule = \<lparr> Schedule_ID = 2, Schedule_Name = ''Primary and backup'',
     Schedule_Description = '''', Timezone = ''UTC'', Schedule_CreatedAt = jan1_2024,
     Schedule_UpdatedAt = jan1_2024, Layers = [daily_layer, weekly_layer] \<rparr>"

definition jan15_noon :: instant where
  "jan15_noon = jan1_2024 + 14 * 24 * Hour + 12 * Hour"

text \<open>The label sets of the fingerprint tests: the same alert, reported once as a warning
  and once as critical, the labels in another order.\<close>

definition high_cpu_warning :: string_map where
  "high_cpu_warning =
     [(''alertname'', ''HighCPU''), (''instance'', ''server1''), (''severity'', ''warning'')]"

definition high_cpu_critical :: string_map where
  "high_cpu_critical =
     [(''severity'', ''critical''), (''instance'', ''server1''), (''alertname'', ''HighCPU'')]"

text \<open>A stand-in for the hash function where a concrete one is needed: the digest repeats
  the length of the message.\<close>

definition fake_Sum256 :: "byte list \<Rightarrow> digest" where
  "fake_Sum256 m = Abs_digest (replicate 32 (of_nat (length m)))"

text \<open>A stand-in for the JSON encoder, the clock of a test run (one second between two
  readings), and a world with an open, empty store.\<close>

definition fake_Marshal :: "string_map \<Rightarrow> string" where
  "fake_Marshal m = concat (map (\<lambda>(k, v). k @ '':'' @ v @ '';'') (sort_key fst m))"

definition test_clock :: "nat \<Rightarrow> instant" where
  "test_clock n = jan15_noon + int n * Second"

definition empty_store :: Store where
  "empty_store = \<lparr> db_closed = False, alert_groups = [], alert_groups_seq = 0 \<rparr>"

definition empty_world :: world where
  "empty_world = \<lparr> db = empty_store, clock = test_clock, reads = 0 \<rparr>"

text \<open>The first alert of the webhook test, the same alert resolved later, and an alert
  without labels and annotations.\<close>

definition error_rate_firing :: PrometheusAlert where
  "error_rate_firing = \<lparr> Alert_Status = ''firing'',
     Alert_Labels = [(''alertname'', ''HighErrorRate''), (''service'', ''api''),
                     (''severity'', ''critical'')],
     Alert_Annotations = [(''summary'', ''Error rate above threshold''),
                          (''description'', ''The error rate is 5% over the last 5 minutes'')],
     StartsAt = jan15_noon - 300 * Second, EndsAt = 0, GeneratorURL = '''' \<rparr>"

definition error_rate_resolved :: PrometheusAlert where
  "error_rate_resolved = \<lparr> Alert_Status = ''resolved'',
     Alert_Labels = [(''severity'', ''warning''), (''service'', ''api''),
                     (''alertname'', ''HighErrorRate'')],
     Alert_Annotations = [],
     StartsAt = jan15_noon - 300 * Second, EndsAt = jan15_noon, GeneratorURL = '''' \<rparr>"

definition unlabelled_alert :: PrometheusAlert where
  "unlabelled_alert = \<lparr> Alert_Status = ''firing'', Alert_Labels = [], Alert_Annotations = [],
     StartsAt = jan15_noon, EndsAt = 0, GeneratorURL = '''' \<rparr>"

text \<open>The alert of the notifier tests, and a network in which every request is answered
  with the same status code.\<close>

definition test_alert :: AlertGroup where
  "test_alert = \<lparr> ID = 1, Fingerprint = ''test123'', Status = ''firing'',
     Severity = ''critical'', Summary = ''Test alert'', Description = ''This is a test'',
     Labels = [(''alertname'', ''TestAlert'')], Annotations = [],
     EscalationChainID = None, AcknowledgedBy = None, AcknowledgedAt = None,
     ResolvedAt = None, CreatedAt = jan15_noon, UpdatedAt = jan15_noon \<rparr>"

definition server_answering :: "int \<Rightarrow> net" where
  "server_answering code =
     \<lparr> slack_json = (\<lambda>alert. Inr (Summary alert)),
       webhook_json = (\<lambda>alert. Inr (Fingerprint alert)),
       url_error = (\<lambda>url. None),
       Do = (\<lambda>req. Inr code) \<rparr>"

text \<open>A two-step chain, its steps not in their order: notify the on-call user, then
  wait 300 seconds.\<close>

definition two_step_chain :: "EscalationPolicy list" where
  "two_step_chain =
     [\<lparr> Policy_ID = 2, ChainID = 1, StepNumber = 2, PolicyType = ''wait'', Target = '''',
         WaitSeconds = 300 \<rparr>,
      \<lparr> Policy_ID = 1, ChainID = 1, StepNumber = 1, PolicyType = ''notify_user'',
         Target = ''platform'', WaitSeconds = 0 \<rparr>]"

section \<open>Rotation resolution\<close>

lemma go_rem_eq:
  assumes "0 < n"
  shows "go_rem r n = (if r < 0 then - ((- r) mod n) else r mod n)"
proof (cases "r < 0")
  case True
  have "(- r) mod n = - r - n * ((- r) div n)"
    by (simp add: minus_mult_div_eq_mod)
  with True assms show ?thesis
    by (simp add: go_rem_def trunc_quo_def)
next
  case False
  have "r mod n = r - n * (r div n)"
    by (simp add: minus_mult_div_eq_mod)
  with False assms show ?thesis
    by (simp add: go_rem_def trunc_quo_def)
qed

lemma go_rem_range:
  assumes "0 < n"
  shows "- n < go_rem r n \<and> go_rem r n < n"
proof (cases "r < 0")
  case True
  then have "go_rem r n = - ((- r) mod n)"
    using assms by (simp add: go_rem_eq)
  moreover have "0 \<le> (- r) mod n" "(- r) mod n < n"
    using assms by simp_all
  ultimately show ?thesis using assms by linarith
next
  case False
  then have "go_rem r n = r mod n"
    using assms by (simp add: go_rem_eq)
  moreover have "0 \<le> r mod n" "r mod n < n"
    using assms by simp_all
  ultimately show ?thesis using assms by linarith
qed

lemma GetOnCallUser_empty:
  "Users l = [] \<Longrightarrow> GetOnCallUser l t = Inr ('''', None)"
  by (simp add: GetOnCallUser_def)


text \<open>
  At and after the rotation start, with a positive interval, truncation and floor agree:
  the code returns the user the specification names.
\<close>

lemma GetOnCallUser_after_start:
  assumes users: "Users l \<noteq> []"
    and interval: "0 < rotationInterval l"
    and elapsed: "RotationStart l \<le> t" "t - RotationStart l \<le> maxDuration"
  shows "GetOnCallUser l t = Inr (spec_on_call_user l t, None)"
proof -
  let ?d = "t - RotationStart l"
  let ?n = "int (length (Users l))"
  let ?q = "?d div rotationInterval l"
  have n: "0 < ?n" using users by simp
  have d: "time_Sub t (RotationStart l) = ?d"
    using elapsed by (simp add: time_Sub_def minDuration_def maxDuration_def Let_def)
  have q0: "0 \<le> ?q"
    using elapsed interval by (simp add: pos_imp_zdiv_nonneg_iff)
  have "?q \<le> ?d"
  proof (cases "?d = 0")
    case True
    then show ?thesis by simp
  next
    case False
    with elapsed have "0 < ?d" by simp
    then show ?thesis by (rule int_div_le_self)
  qed
  then have q1: "?q < 2 ^ 63"
    using elapsed by (simp add: maxDuration_def)
  have "trunc_quo ?d (rotationInterval l) = ?q"
    using elapsed interval by (simp add: trunc_quo_def)
  moreover have "wrap64 ?q = ?q"
    using q0 q1 by (simp add: wrap64_def)
  ultimately have q: "go_quo (time_Sub t (RotationStart l)) (rotationInterval l) = ?q"
    by (simp add: go_quo_def d)
  have r: "go_rem ?q ?n = ?q mod ?n"
    using q0 n by (simp add: go_rem_eq)
  have "0 \<le> ?q mod ?n" "?q mod ?n < ?n"
    using n by simp_all
  then have b: "\<not> ?q mod ?n < 0" "\<not> ?n \<le> ?q mod ?n"
    by linarith+
  show ?thesis
    using users interval by (simp add: GetOnCallUser_def spec_on_call_user_def Let_def q r b)
qed

text \<open>
  Claim C1. The claim asks that every layer with a non-empty users list resolves at every
  instant, also before the rotation start, to \<open>users[floor(elapsed / interval) mod len]\<close>
  with the index wrapped into the list. The code divides with truncation and takes Go's
  signed remainder. One day before the start of a daily rotation over three users the
  index is \<open>-1\<close> and the call panics, where the claim names the third user; twelve hours
  before the start the quotient is truncated to \<open>0\<close> and the first user is returned,
  where the claim's floor again gives the third.
\<close>

theorem GetOnCallUser_before_start:
  "GetOnCallUser daily_layer (jan1_2024 - 24 * Hour) = Inl IndexOutOfRange \<and>
   spec_on_call_user daily_layer (jan1_2024 - 24 * Hour) = ''charlie'' \<and>
   GetOnCallUser daily_layer (jan1_2024 - 12 * Hour) = Inr (''alice'', None) \<and>
   spec_on_call_user daily_layer (jan1_2024 - 12 * Hour) = ''charlie''"
  by (simp add: GetOnCallUser_def spec_on_call_user_def daily_layer_def rotationInterval_def
      jan1_2024_def time_Sub_def minDuration_def maxDuration_def Hour_def Second_def
      Nanosecond_def go_quo_def go_rem_def trunc_quo_def wrap64_def Let_def)








section \<open>Schedules\<close>

lemma layers_loop_skip:
  assumes "\<forall>l \<in> set before. Users l = [] \<or> GetOnCallUser l t = Inr ('''', None)"
  shows "layers_loop (before @ rest) t = layers_loop rest t"
  using assms
proof (induction before)
  case Nil
  show ?case by simp
next
  case (Cons l before)
  then have "GetOnCallUser l t = Inr ('''', None)"
    by (auto simp: GetOnCallUser_empty)
  with Cons show ?case by simp
qed

lemma layers_loop_hit:
  assumes "GetOnCallUser l t = Inr (u, None)" and "u \<noteq> ''''"
  shows "layers_loop (l # rest) t = Inr (u, None)"
  using assms by simp

text \<open>
  As long as the layers return, \<open>GetCurrentOnCall\<close> tries them in their order. When every
  layer before layer \<open>l\<close> yields the empty result (for one, because it has no users) and
  \<open>l\<close> resolves to a user, that user is returned with a nil error, whatever the layers
  after \<open>l\<close> are; when every layer yields the empty result, the result is the empty user
  with a nil error.
\<close>

lemma GetCurrentOnCall_first_non_empty:
  assumes "\<forall>l \<in> set before. Users l = [] \<or> GetOnCallUser l t = Inr ('''', None)"
  shows "(Layers s = before @ l # rest \<and> GetOnCallUser l t = Inr (u, None) \<and> u \<noteq> ''''
            \<longrightarrow> GetCurrentOnCall s t = Inr (u, None)) \<and>
         (Layers s = before \<longrightarrow> GetCurrentOnCall s t = Inr ('''', None))"
proof (intro conjI impI)
  assume "Layers s = before @ l # rest \<and> GetOnCallUser l t = Inr (u, None) \<and> u \<noteq> ''''"
  then show "GetCurrentOnCall s t = Inr (u, None)"
    using layers_loop_skip [OF assms, of "l # rest"] layers_loop_hit [of l t u rest]
    by (simp add: GetCurrentOnCall_def)
next
  assume "Layers s = before"
  then show "GetCurrentOnCall s t = Inr ('''', None)"
    using layers_loop_skip [OF assms, of "[]"] by (simp add: GetCurrentOnCall_def)
qed

text \<open>The schedule test, with a layer without users in front: the third user of the
  weekly layer is on call two weeks after the start.\<close>

lemma GetCurrentOnCall_platform_schedule:
  "Users empty_layer = [] \<and> Layers platform_schedule = [empty_layer] @ weekly_layer # [] \<and>
   GetOnCallUser weekly_layer jan15_noon = Inr (''charlie'', None) \<and>
   GetCurrentOnCall platform_schedule jan15_noon = Inr (''charlie'', None) \<and>
   GetCurrentOnCall (platform_schedule\<lparr>Layers := [empty_layer]\<rparr>) jan15_noon = Inr ('''', None)"
proof -
  have e: "\<forall>l \<in> set [empty_layer]. Users l = [] \<or> GetOnCallUser l jan15_noon = Inr ('''', None)"
    by (simp add: empty_layer_def)
  have l: "Layers platform_schedule = [empty_layer] @ weekly_layer # []"
    by (simp add: platform_schedule_def)
  have w: "GetOnCallUser weekly_layer jan15_noon = Inr (''charlie'', None)"
    by (simp add: GetOnCallUser_def weekly_layer_def rotationInterval_def jan1_2024_def
        jan15_noon_def time_Sub_def minDuration_def maxDuration_def Hour_def Second_def
        Nanosecond_def go_quo_def go_rem_def trunc_quo_def wrap64_def Let_def)
  have "GetCurrentOnCall platform_schedule jan15_noon = Inr (''charlie'', None)"
    using GetCurrentOnCall_first_non_empty [OF e, of platform_schedule weekly_layer "[]" "''charlie''"]
      l w by simp
  moreover have "GetCurrentOnCall (platform_schedule\<lparr>Layers := [empty_layer]\<rparr>) jan15_noon
      = Inr ('''', None)"
    using GetCurrentOnCall_first_non_empty [OF e,
        of "platform_schedule\<lparr>Layers := [empty_layer]\<rparr>" weekly_layer "[]" "''charlie''"]
    by simp
  ultimately show ?thesis
    using l w by (simp add: empty_layer_def)
qed

lemma GetOnCallUser_weekly_before_start:
  "GetOnCallUser weekly_layer (jan1_2024 - 24 * Hour) = Inr (''alice'', None)"
  by (simp add: GetOnCallUser_def weekly_layer_def rotationInterval_def jan1_2024_def
      time_Sub_def minDuration_def maxDuration_def Hour_def Second_def Nanosecond_def
      go_quo_def go_rem_def trunc_quo_def wrap64_def Let_def)

lemma GetOnCallUser_daily_before_start:
  "GetOnCallUser daily_layer (jan1_2024 - 24 * Hour) = Inl IndexOutOfRange"
  by (simp add: GetOnCallUser_def daily_layer_def rotationInterval_def jan1_2024_def
      time_Sub_def minDuration_def maxDuration_def Hour_def Second_def Nanosecond_def
      go_quo_def go_rem_def trunc_quo_def wrap64_def Let_def)

text \<open>
  Claim C7. The claim asks that for every schedule and instant the first non-empty user
  among the layers is returned, a layer without a user being passed over, and that the
  result is empty, not an error, when no layer yields a user. The loop of the code does
  so only while the layers return: a panic of \<open>GetOnCallUser\<close> ends \<open>GetCurrentOnCall\<close>.
  One day before the rotation start, the daily layer yields no user but panics. With the
  weekly layer behind it, which alone resolves to the first user, the schedule panics
  where the claim names that user; behind a layer without users, with no layer yielding
  a user, the schedule panics where the claim names the empty result.
\<close>

theorem GetCurrentOnCall_layer_panics:
  "GetOnCallUser weekly_layer (jan1_2024 - 24 * Hour) = Inr (''alice'', None) \<and>
   GetCurrentOnCall primary_backup_schedule (jan1_2024 - 24 * Hour) = Inl IndexOutOfRange \<and>
   GetOnCallUser empty_layer (jan1_2024 - 24 * Hour) = Inr ('''', None) \<and>
   GetCurrentOnCall (primary_backup_schedule\<lparr>Layers := [empty_layer, daily_layer]\<rparr>)
     (jan1_2024 - 24 * Hour) = Inl IndexOutOfRange"
  by (simp add: GetCurrentOnCall_def primary_backup_schedule_def GetOnCallUser_daily_before_start
      GetOnCallUser_weekly_before_start GetOnCallUser_empty empty_layer_def)

section \<open>Fingerprints\<close>

lemma identity_keys_eq:
  assumes d1: "distinct (map fst L1)" and d2: "distinct (map fst L2)"
    and same: "\<And>k. \<not> skipped_label k \<Longrightarrow> map_of L1 k = map_of L2 k"
  shows "filter (\<lambda>k. \<not> skipped_label k) (sort (map fst L1)) =
         filter (\<lambda>k. \<not> skipped_label k) (sort (map fst L2))"
proof -
  let ?P = "\<lambda>k. \<not> skipped_label k"
  have k1: "set (filter ?P (map fst L1)) = {k. ?P k \<and> map_of L1 k \<noteq> None}"
    by (auto simp: map_of_eq_None_iff)
  have k2: "set (filter ?P (map fst L2)) = {k. ?P k \<and> map_of L2 k \<noteq> None}"
    by (auto simp: map_of_eq_None_iff)
  have "{k. ?P k \<and> map_of L1 k \<noteq> None} = {k. ?P k \<and> map_of L2 k \<noteq> None}"
    using same by auto
  with k1 k2 have "set (filter ?P (map fst L1)) = set (filter ?P (map fst L2))"
    by simp
  moreover have "distinct (filter ?P (map fst L1))" "distinct (filter ?P (map fst L2))"
    using d1 d2 by simp_all
  ultimately have "sort (filter ?P (map fst L1)) = sort (filter ?P (map fst L2))"
    by (intro sorted_distinct_set_unique) simp_all
  then show ?thesis
    by (simp add: filter_sort)
qed

lemma generateFingerprint_identity:
  assumes "distinct (map fst L1)" and "distinct (map fst L2)"
    and same: "\<And>k. \<not> skipped_label k \<Longrightarrow> map_of L1 k = map_of L2 k"
  shows "generateFingerprint Sum256 L1 = generateFingerprint Sum256 L2"
proof -
  let ?ks = "filter (\<lambda>k. \<not> skipped_label k) (sort (map fst L2))"
  have ks: "filter (\<lambda>k. \<not> skipped_label k) (sort (map fst L1)) = ?ks"
    by (rule identity_keys_eq [OF assms])
  have m: "map (\<lambda>k. k @ ''='' @ map_index L1 k) ?ks = map (\<lambda>k. k @ ''='' @ map_index L2 k) ?ks"
    by (rule map_cong) (simp_all add: map_index_def same)
  have "generateFingerprint Sum256 L1 =
      hex (take 8 (digest_bytes (Sum256 (bytes_of (Join (map (\<lambda>k. k @ ''='' @ map_index L1 k) ?ks) ''|'')))))"
    unfolding generateFingerprint_def Let_def ks by (rule refl)
  also have "\<dots> = generateFingerprint Sum256 L2"
    unfolding generateFingerprint_def Let_def m by (rule refl)
  finally show ?thesis .
qed
text \<open>
  Claim C4. Two label maps (association lists with distinct keys, each in its own
  iteration order) have the same fingerprint when they hold the same key-value pairs, or
  agree on every key but \<open>severity\<close>, or agree on every key without the prefix \<open>__\<close>.
\<close>

theorem generateFingerprint_ignores_order_severity_internal:
  assumes "distinct (map fst L1)" and "distinct (map fst L2)"
    and "set L1 = set L2
         \<or> (\<forall>k. k \<noteq> ''severity'' \<longrightarrow> map_of L1 k = map_of L2 k)
         \<or> (\<forall>k. \<not> HasPrefix k ''__'' \<longrightarrow> map_of L1 k = map_of L2 k)"
  shows "generateFingerprint Sum256 L1 = generateFingerprint Sum256 L2"
proof (rule generateFingerprint_identity [OF assms(1,2)])
  fix k
  assume k: "\<not> skipped_label k"
  from assms(3) consider "set L1 = set L2"
    | "\<forall>k. k \<noteq> ''severity'' \<longrightarrow> map_of L1 k = map_of L2 k"
    | "\<forall>k. \<not> HasPrefix k ''__'' \<longrightarrow> map_of L1 k = map_of L2 k"
    by blast
  then show "map_of L1 k = map_of L2 k"
  proof cases
    case 1
    then have "map_of L1 = map_of L2"
      using assms(1,2) by (simp add: map_of_inject_set)
    then show ?thesis by simp
  next
    case 2
    with k show ?thesis by (simp add: skipped_label_def)
  next
    case 3
    with k show ?thesis by (simp add: skipped_label_def)
  qed
qed

theorem generateFingerprint_ignores_order_severity_internal_witness:
  "distinct (map fst high_cpu_warning) \<and> distinct (map fst high_cpu_critical) \<and>
   map_of high_cpu_warning ''severity'' \<noteq> map_of high_cpu_critical ''severity'' \<and>
   high_cpu_warning \<noteq> high_cpu_critical \<and>
   generateFingerprint fake_Sum256 high_cpu_warning = generateFingerprint fake_Sum256 high_cpu_critical"
proof -
  have d: "distinct (map fst high_cpu_warning)" "distinct (map fst high_cpu_critical)"
    by (simp_all add: high_cpu_warning_def high_cpu_critical_def)
  have s: "\<forall>k. k \<noteq> ''severity'' \<longrightarrow> map_of high_cpu_warning k = map_of high_cpu_critical k"
    by (simp add: high_cpu_warning_def high_cpu_critical_def)
  have "generateFingerprint fake_Sum256 high_cpu_warning
      = generateFingerprint fake_Sum256 high_cpu_critical"
    using generateFingerprint_ignores_order_severity_internal [OF d, of fake_Sum256] s by blast
  then show ?thesis
    using d by (simp add: high_cpu_warning_def high_cpu_critical_def)
qed

lemma length_hex: "length (hex bs) = 2 * length bs"
  by (induction bs) (simp_all add: hex_def)

lemma length_digest_bytes: "length (digest_bytes h) = 32"
  using Rep_digest [of h] by (simp add: digest_bytes_def)

lemma hexdigit_lower: "n < 16 \<Longrightarrow> lower_hex_char (hexdigit n)"
  unfolding lower_hex_char_def hexdigit_def by (rule nth_mem) simp

lemma hex_lower: "list_all lower_hex_char (hex bs)"
proof (induction bs)
  case Nil
  show ?case by (simp add: hex_def)
next
  case (Cons b bs)
  have "unat b < 256"
    using unsigned_less [of b] by simp
  then have "unat b div 16 < 16" "unat b mod 16 < 16"
    by simp_all
  then have "lower_hex_char (hexdigit (unat b div 16))" "lower_hex_char (hexdigit (unat b mod 16))"
    by (simp_all only: hexdigit_lower)
  with Cons show ?case
    by (simp add: hex_def)
qed

text \<open>
  Claim C5. \<open>generateFingerprint\<close> has no failing branch: for every label map, the empty
  one included, it returns 16 characters, each a lower-case hexadecimal digit. For the
  empty label map nothing is joined, and the fingerprint is the first eight bytes of the
  digest of the empty byte string, whatever the map's representation.
\<close>

theorem generateFingerprint_16_lower_hex:
  "length (generateFingerprint Sum256 labels) = 16 \<and>
   list_all lower_hex_char (generateFingerprint Sum256 labels) \<and>
   generateFingerprint Sum256 [] = hex (take 8 (digest_bytes (Sum256 [])))"
  by (simp add: generateFingerprint_def Let_def length_hex length_digest_bytes hex_lower
      bytes_of_def)

section \<open>Ingestion\<close>

lemma upsertAlert_insert:
  assumes "\<not> db_closed st"
    and "\<forall>r \<in> set (alert_groups st). col_fingerprint r \<noteq> Fingerprint alert"
  shows "upsertAlert st alert lj aj =
           (Inr (alert\<lparr>ID := alert_groups_seq st + 1\<rparr>),
            st\<lparr>alert_groups :=
                  alert_groups st @ [inserted_row (alert_groups_seq st + 1) alert lj aj],
                alert_groups_seq := alert_groups_seq st + 1\<rparr>)"
proof -
  have "find (\<lambda>r. col_fingerprint r = Fingerprint alert) (alert_groups st) = None"
    using assms(2) by (simp add: find_None_iff)
  with assms(1) show ?thesis
    by (simp add: upsertAlert_def Let_def)
qed

lemma upsertAlert_update:
  assumes "\<not> db_closed st"
    and "find (\<lambda>r. col_fingerprint r = Fingerprint alert) (alert_groups st) = Some conflict"
  shows "upsertAlert st alert lj aj =
           (Inr (alert\<lparr>ID := col_id conflict\<rparr>),
            st\<lparr>alert_groups :=
                  map (\<lambda>r. if col_fingerprint r = Fingerprint alert
                           then updated_row r alert lj aj else r) (alert_groups st),
                alert_groups_seq := alert_groups_seq st + 1\<rparr>)"
  using assms by (simp add: upsertAlert_def)

lemma updated_row_fingerprint [simp]:
  "col_fingerprint (updated_row r alert lj aj) = col_fingerprint r"
  by (simp add: updated_row_def)

lemma upsertAlert_open:
  assumes "\<not> db_closed st"
  shows "\<exists>stored st'. upsertAlert st alert lj aj = (Inr stored, st')
           \<and> stored = alert\<lparr>ID := ID stored\<rparr> \<and> \<not> db_closed st'
           \<and> (\<exists>row \<in> set (alert_groups st'). col_fingerprint row = Fingerprint alert)
           \<and> (\<forall>row \<in> set (alert_groups st'). col_fingerprint row = Fingerprint alert \<longrightarrow>
                 col_status row = Status alert \<and> col_severity row = Some (Severity alert)
                 \<and> col_summary row = Some (Summary alert)
                 \<and> col_description row = Some (Description alert)
                 \<and> col_labels row = Some lj \<and> col_annotations row = Some aj
                 \<and> col_updated_at row = Some (UpdatedAt alert))"
proof (cases "find (\<lambda>r. col_fingerprint r = Fingerprint alert) (alert_groups st)")
  case None
  then have "\<forall>r \<in> set (alert_groups st). col_fingerprint r \<noteq> Fingerprint alert"
    by (simp add: find_None_iff)
  with assms show ?thesis
    by (auto simp: upsertAlert_insert inserted_row_def)
next
  case (Some conflict)
  let ?f = "\<lambda>r. if col_fingerprint r = Fingerprint alert then updated_row r alert lj aj else r"
  from Some have c: "conflict \<in> set (alert_groups st)" "col_fingerprint conflict = Fingerprint alert"
    by (auto simp: find_Some_iff)
  then have "?f conflict \<in> set (map ?f (alert_groups st))"
    by (intro imageI [of conflict "set (alert_groups st)" ?f, folded set_map])
  with c have ex: "\<exists>row \<in> set (map ?f (alert_groups st)). col_fingerprint row = Fingerprint alert"
    by (intro bexI [of _ "?f conflict"]) simp_all
  have all: "\<forall>row \<in> set (map ?f (alert_groups st)). col_fingerprint row = Fingerprint alert \<longrightarrow>
        col_status row = Status alert \<and> col_severity row = Some (Severity alert)
        \<and> col_summary row = Some (Summary alert)
        \<and> col_description row = Some (Description alert)
        \<and> col_labels row = Some lj \<and> col_annotations row = Some aj
        \<and> col_updated_at row = Some (UpdatedAt alert)"
    by (auto simp: updated_row_def)
  show ?thesis
    using assms ex all by (simp add: upsertAlert_update [OF assms Some])
qed

lemma processAlert_upsert:
  "processAlert Sum256 m w a =
     (case upsertAlert (db w)
             (alertGroup_of (generateFingerprint Sum256 (Alert_Labels a)) a
                (clock w (reads w)) (clock w (Suc (reads w))))
             (m (Alert_Labels a)) (m (Alert_Annotations a)) of
        (Inl err, st) \<Rightarrow>
          (Inl (''failed to store alert: '' @ err), w\<lparr>reads := Suc (Suc (reads w)), db := st\<rparr>)
      | (Inr stored, st) \<Rightarrow> (Inr stored, w\<lparr>reads := Suc (Suc (reads w)), db := st\<rparr>))"
  by (simp add: processAlert_def time_Now_def Let_def split: prod.splits sum.splits)

text \<open>The only error of an ingestion is a failed upsert, as on a closed database.\<close>

lemma processAlert_closed:
  assumes "db_closed (db w)"
  shows "fst (processAlert Sum256 m w a) = Inl ''failed to store alert: sql: database is closed''"
    and "alert_groups (db (snd (processAlert Sum256 m w a))) = alert_groups (db w)"
  using assms by (simp_all add: processAlert_upsert upsertAlert_def)

lemma find_fresh_append:
  assumes "\<forall>r \<in> set xs. \<not> P r" and "P y"
  shows "find P (xs @ [y]) = Some y"
  using assms by (induction xs) simp_all

lemma map_fresh_append:
  assumes "\<forall>r \<in> set xs. \<not> P r" and "P y"
  shows "map (\<lambda>r. if P r then g r else r) (xs @ [y]) = xs @ [g y]"
  using assms by (induction xs) simp_all

lemma filter_fresh_append:
  assumes "\<forall>r \<in> set xs. \<not> P r" and "P y"
  shows "filter P (xs @ [y]) = [y]"
  using assms by (induction xs) simp_all

lemma processAlert_first:
  assumes opn: "\<not> db_closed (db w)"
    and fresh: "\<forall>r \<in> set (alert_groups (db w)).
                  col_fingerprint r \<noteq> generateFingerprint Sum256 (Alert_Labels a)"
  shows "processAlert Sum256 m w a =
     (Inr ((alertGroup_of (generateFingerprint Sum256 (Alert_Labels a)) a
              (clock w (reads w)) (clock w (Suc (reads w))))\<lparr>ID := alert_groups_seq (db w) + 1\<rparr>),
      w\<lparr>reads := Suc (Suc (reads w)),
         db := (db w)\<lparr>alert_groups := alert_groups (db w) @
                   [inserted_row (alert_groups_seq (db w) + 1)
                      (alertGroup_of (generateFingerprint Sum256 (Alert_Labels a)) a
                         (clock w (reads w)) (clock w (Suc (reads w))))
                      (m (Alert_Labels a)) (m (Alert_Annotations a))],
                 alert_groups_seq := alert_groups_seq (db w) + 1\<rparr>\<rparr>)"
proof -
  let ?ag = "alertGroup_of (generateFingerprint Sum256 (Alert_Labels a)) a
               (clock w (reads w)) (clock w (Suc (reads w)))"
  have f: "Fingerprint ?ag = generateFingerprint Sum256 (Alert_Labels a)"
    by (simp add: alertGroup_of_def)
  show ?thesis
    unfolding processAlert_upsert
    using upsertAlert_insert [of "db w" ?ag, OF opn] fresh
    by (simp add: f)
qed

lemma processAlert_again:
  assumes opn: "\<not> db_closed (db w)"
    and rows: "alert_groups (db w) = old @ [row]"
    and fresh: "\<forall>r \<in> set old. col_fingerprint r \<noteq> generateFingerprint Sum256 (Alert_Labels a)"
    and hit: "col_fingerprint row = generateFingerprint Sum256 (Alert_Labels a)"
  shows "processAlert Sum256 m w a =
     (Inr ((alertGroup_of (generateFingerprint Sum256 (Alert_Labels a)) a
              (clock w (reads w)) (clock w (Suc (reads w))))\<lparr>ID := col_id row\<rparr>),
      w\<lparr>reads := Suc (Suc (reads w)),
         db := (db w)\<lparr>alert_groups := old @
                   [updated_row row
                      (alertGroup_of (generateFingerprint Sum256 (Alert_Labels a)) a
                         (clock w (reads w)) (clock w (Suc (reads w))))
                      (m (Alert_Labels a)) (m (Alert_Annotations a))],
                 alert_groups_seq := alert_groups_seq (db w) + 1\<rparr>\<rparr>)"
proof -
  let ?F = "generateFingerprint Sum256 (Alert_Labels a)"
  let ?ag = "alertGroup_of ?F a (clock w (reads w)) (clock w (Suc (reads w)))"
  have f: "Fingerprint ?ag = ?F"
    by (simp add: alertGroup_of_def)
  have "find (\<lambda>r. col_fingerprint r = ?F) (old @ [row]) = Some row"
    using fresh hit by (intro find_fresh_append) simp_all
  then have fnd: "find (\<lambda>r. col_fingerprint r = Fingerprint ?ag) (alert_groups (db w)) = Some row"
    by (simp add: f rows)
  have mp: "map (\<lambda>r. if col_fingerprint r = ?F then updated_row r ?ag (m (Alert_Labels a)) (m (Alert_Annotations a)) else r) (old @ [row])
        = old @ [updated_row row ?ag (m (Alert_Labels a)) (m (Alert_Annotations a))]"
    using fresh hit by (intro map_fresh_append) simp_all
  show ?thesis
    unfolding processAlert_upsert upsertAlert_update [OF opn fnd]
    using mp by (simp add: f rows)
qed

text \<open>
  Claim C3. Two ingestions in a row whose label sets have the same fingerprint, the first
  into an open store that has no row for it: both succeed; afterwards exactly one row has
  that fingerprint; its \<open>created_at\<close> is the one the first ingestion wrote (its first
  reading of the clock); its \<open>updated_at\<close> is the second ingestion's (the fourth reading);
  status, severity, summary, description, labels and annotations are those of the second
  event. The same holds when both alerts arrive in one webhook.
\<close>

theorem processAlert_same_fingerprint_twice:
  assumes opn: "\<not> db_closed (db w)"
    and fresh: "\<forall>r \<in> set (alert_groups (db w)).
                  col_fingerprint r \<noteq> generateFingerprint Sum256 (Alert_Labels a1)"
    and same: "generateFingerprint Sum256 (Alert_Labels a2) = generateFingerprint Sum256 (Alert_Labels a1)"
  shows "\<exists>ag1 w1 row1 ag2 w2 row2.
           processAlert Sum256 m w a1 = (Inr ag1, w1) \<and>
           processAlert Sum256 m w1 a2 = (Inr ag2, w2) \<and>
           Fingerprint ag1 = generateFingerprint Sum256 (Alert_Labels a1) \<and>
           Fingerprint ag2 = Fingerprint ag1 \<and> ID ag2 = ID ag1 \<and>
           CreatedAt ag1 = clock w (reads w) \<and> UpdatedAt ag2 = clock w (reads w + 3) \<and>
           filter (\<lambda>r. col_fingerprint r = Fingerprint ag1) (alert_groups (db w1)) = [row1] \<and>
           filter (\<lambda>r. col_fingerprint r = Fingerprint ag1) (alert_groups (db w2)) = [row2] \<and>
           col_created_at row1 = Some (CreatedAt ag1) \<and>
           col_created_at row2 = col_created_at row1 \<and>
           col_updated_at row2 = Some (UpdatedAt ag2) \<and>
           col_status row2 = Alert_Status a2 \<and>
           col_severity row2 = Some (alert_severity a2) \<and>
           col_summary row2 = Some (alert_summary a2) \<and>
           col_description row2 = Some (alert_description a2) \<and>
           col_labels row2 = Some (m (Alert_Labels a2)) \<and>
           col_annotations row2 = Some (m (Alert_Annotations a2)) \<and>
           (\<forall>webhook. Alerts webhook = [a1, a2] \<longrightarrow>
              ProcessPrometheusWebhook Sum256 m w webhook = (Inr [ag1, ag2], w2))"
proof -
  let ?F = "generateFingerprint Sum256 (Alert_Labels a1)"
  let ?old = "alert_groups (db w)"
  let ?n = "alert_groups_seq (db w) + 1"
  let ?g1 = "alertGroup_of ?F a1 (clock w (reads w)) (clock w (Suc (reads w)))"
  let ?row1 = "inserted_row ?n ?g1 (m (Alert_Labels a1)) (m (Alert_Annotations a1))"
  let ?w1 = "w\<lparr>reads := Suc (Suc (reads w)),
               db := (db w)\<lparr>alert_groups := ?old @ [?row1], alert_groups_seq := ?n\<rparr>\<rparr>"
  let ?g2 = "alertGroup_of ?F a2 (clock ?w1 (reads ?w1)) (clock ?w1 (Suc (reads ?w1)))"
  let ?row2 = "updated_row ?row1 ?g2 (m (Alert_Labels a2)) (m (Alert_Annotations a2))"
  let ?w2 = "?w1\<lparr>reads := Suc (Suc (reads ?w1)),
               db := (db ?w1)\<lparr>alert_groups := ?old @ [?row2],
                        alert_groups_seq := ?n + 1\<rparr>\<rparr>"
  have p1: "processAlert Sum256 m w a1 = (Inr (?g1\<lparr>ID := ?n\<rparr>), ?w1)"
    by (rule processAlert_first [OF opn fresh])
  have opn1: "\<not> db_closed (db ?w1)"
    using opn by simp
  have rows1: "alert_groups (db ?w1) = ?old @ [?row1]"
    by simp
  have fresh2: "\<forall>r \<in> set ?old. col_fingerprint r \<noteq> generateFingerprint Sum256 (Alert_Labels a2)"
    using fresh same by simp
  have hit: "col_fingerprint ?row1 = generateFingerprint Sum256 (Alert_Labels a2)"
    by (simp add: inserted_row_def alertGroup_of_def same)
  have p2: "processAlert Sum256 m ?w1 a2 = (Inr (?g2\<lparr>ID := col_id ?row1\<rparr>), ?w2)"
    using processAlert_again [OF opn1 rows1 fresh2 hit, of m] by (simp add: same)
  have f1: "filter (\<lambda>r. col_fingerprint r = ?F) (alert_groups (db ?w1)) = [?row1]"
    unfolding rows1 using fresh by (intro filter_fresh_append) (simp_all add: inserted_row_def alertGroup_of_def)
  have f2: "filter (\<lambda>r. col_fingerprint r = ?F) (alert_groups (db ?w2)) = [?row2]"
  proof -
    have "filter (\<lambda>r. col_fingerprint r = ?F) (?old @ [?row2]) = [?row2]"
      using fresh by (intro filter_fresh_append) (simp_all add: inserted_row_def alertGroup_of_def)
    then show ?thesis by simp
  qed
  have fields: "Fingerprint (?g1\<lparr>ID := ?n\<rparr>) = ?F"
    "Fingerprint (?g2\<lparr>ID := col_id ?row1\<rparr>) = Fingerprint (?g1\<lparr>ID := ?n\<rparr>)"
    "ID (?g2\<lparr>ID := col_id ?row1\<rparr>) = ID (?g1\<lparr>ID := ?n\<rparr>)"
    "CreatedAt (?g1\<lparr>ID := ?n\<rparr>) = clock w (reads w)"
    "UpdatedAt (?g2\<lparr>ID := col_id ?row1\<rparr>) = clock w (reads w + 3)"
    "col_created_at ?row1 = Some (CreatedAt (?g1\<lparr>ID := ?n\<rparr>))"
    "col_created_at ?row2 = col_created_at ?row1"
    "col_updated_at ?row2 = Some (UpdatedAt (?g2\<lparr>ID := col_id ?row1\<rparr>))"
    "col_status ?row2 = Alert_Status a2"
    "col_severity ?row2 = Some (alert_severity a2)"
    "col_summary ?row2 = Some (alert_summary a2)"
    "col_description ?row2 = Some (alert_description a2)"
    "col_labels ?row2 = Some (m (Alert_Labels a2))"
    "col_annotations ?row2 = Some (m (Alert_Annotations a2))"
    by (simp_all add: inserted_row_def updated_row_def alertGroup_of_def eval_nat_numeral)
  have batch: "\<forall>webhook. Alerts webhook = [a1, a2] \<longrightarrow>
      ProcessPrometheusWebhook Sum256 m w webhook
        = (Inr [?g1\<lparr>ID := ?n\<rparr>, ?g2\<lparr>ID := col_id ?row1\<rparr>], ?w2)"
    by (simp add: ProcessPrometheusWebhook_def p1 p2)
  show ?thesis
    apply (rule exI [of _ "?g1\<lparr>ID := ?n\<rparr>"])
    apply (rule exI [of _ ?w1])
    apply (rule exI [of _ ?row1])
    apply (rule exI [of _ "?g2\<lparr>ID := col_id ?row1\<rparr>"])
    apply (rule exI [of _ ?w2])
    apply (rule exI [of _ ?row2])
    apply (intro conjI)
    apply (rule p1)
    apply (rule p2)
    apply (rule fields(1))
    apply (rule fields(2))
    apply (rule fields(3))
    apply (rule fields(4))
    apply (rule fields(5))
    apply (simp only: fields(1) f1)
    apply (simp only: fields(1) f2)
    apply (rule fields(6))
    apply (rule fields(7))
    apply (rule fields(8))
    apply (rule fields(9))
    apply (rule fields(10))
    apply (rule fields(11))
    apply (rule fields(12))
    apply (rule fields(13))
    apply (rule fields(14))
    apply (rule batch)
    done
qed


theorem processAlert_same_fingerprint_twice_witness:
  "\<not> db_closed (db empty_world) \<and> alert_groups (db empty_world) = [] \<and>
   generateFingerprint fake_Sum256 (Alert_Labels error_rate_resolved)
     = generateFingerprint fake_Sum256 (Alert_Labels error_rate_firing) \<and>
   Alert_Status error_rate_firing \<noteq> Alert_Status error_rate_resolved \<and>
   map (\<lambda>r. (col_created_at r, col_updated_at r, col_status r, col_severity r, col_summary r))
     (filter (\<lambda>r. col_fingerprint r = generateFingerprint fake_Sum256 (Alert_Labels error_rate_firing))
        (alert_groups (db (snd (processAlert fake_Sum256 fake_Marshal
           (snd (processAlert fake_Sum256 fake_Marshal empty_world error_rate_firing))
           error_rate_resolved)))))
     = [(Some (test_clock 0), Some (test_clock 3), ''resolved'', Some ''warning'',
         Some ''HighErrorRate'')]"
proof -
  have opn: "\<not> db_closed (db empty_world)"
    by (simp add: empty_world_def empty_store_def)
  have fresh: "\<forall>r \<in> set (alert_groups (db empty_world)).
      col_fingerprint r \<noteq> generateFingerprint fake_Sum256 (Alert_Labels error_rate_firing)"
    by (simp add: empty_world_def empty_store_def)
  have same: "generateFingerprint fake_Sum256 (Alert_Labels error_rate_resolved)
      = generateFingerprint fake_Sum256 (Alert_Labels error_rate_firing)"
    by (rule generateFingerprint_identity)
      (simp_all add: error_rate_resolved_def error_rate_firing_def skipped_label_def)
  from processAlert_same_fingerprint_twice [OF opn fresh same, of fake_Marshal]
  obtain ag1 w1 and row1 :: alert_groups_row and ag2 w2 row2 where
    p: "processAlert fake_Sum256 fake_Marshal empty_world error_rate_firing = (Inr ag1, w1)"
      "processAlert fake_Sum256 fake_Marshal w1 error_rate_resolved = (Inr ag2, w2)"
    and f: "Fingerprint ag1 = generateFingerprint fake_Sum256 (Alert_Labels error_rate_firing)"
      "filter (\<lambda>r. col_fingerprint r = Fingerprint ag1) (alert_groups (db w2)) = [row2]"
    and t: "CreatedAt ag1 = clock empty_world (reads empty_world)"
      "UpdatedAt ag2 = clock empty_world (reads empty_world + 3)"
      "col_created_at row1 = Some (CreatedAt ag1)" "col_created_at row2 = col_created_at row1"
      "col_updated_at row2 = Some (UpdatedAt ag2)"
    and v: "col_status row2 = Alert_Status error_rate_resolved"
      "col_severity row2 = Some (alert_severity error_rate_resolved)"
      "col_summary row2 = Some (alert_summary error_rate_resolved)"
    by blast
  have "col_created_at row2 = Some (test_clock 0)" "col_updated_at row2 = Some (test_clock 3)"
    using t by (simp_all add: empty_world_def)
  moreover have "col_status row2 = ''resolved''" "col_severity row2 = Some ''warning''"
    "col_summary row2 = Some ''HighErrorRate''"
    using v by (simp_all add: error_rate_resolved_def alert_severity_def alert_summary_def
        map_index_def)
  ultimately show ?thesis
    using opn same p f
    by (simp add: empty_world_def empty_store_def error_rate_resolved_def error_rate_firing_def)
qed

lemma processAlert_open:
  assumes "\<not> db_closed (db w)"
  shows "\<exists>ag w'. processAlert Sum256 m w a = (Inr ag, w')
           \<and> \<not> db_closed (db w')
           \<and> Fingerprint ag = generateFingerprint Sum256 (Alert_Labels a)
           \<and> Status ag = Alert_Status a
           \<and> Severity ag = alert_severity a \<and> Summary ag = alert_summary a
           \<and> Description ag = alert_description a
           \<and> (\<exists>row \<in> set (alert_groups (db w')). col_fingerprint row = Fingerprint ag)
           \<and> (\<forall>row \<in> set (alert_groups (db w')). col_fingerprint row = Fingerprint ag \<longrightarrow>
                 col_status row = Status ag \<and> col_severity row = Some (Severity ag)
                 \<and> col_summary row = Some (Summary ag)
                 \<and> col_description row = Some (Description ag))"
proof -
  let ?g = "alertGroup_of (generateFingerprint Sum256 (Alert_Labels a)) a
              (clock w (reads w)) (clock w (Suc (reads w)))"
  from upsertAlert_open [OF assms, of ?g "m (Alert_Labels a)" "m (Alert_Annotations a)"]
  obtain stored st' where u:
    "upsertAlert (db w) ?g (m (Alert_Labels a)) (m (Alert_Annotations a)) = (Inr stored, st')"
    "stored = ?g\<lparr>ID := ID stored\<rparr>" "\<not> db_closed st'"
    "\<exists>row \<in> set (alert_groups st'). col_fingerprint row = Fingerprint ?g"
    "\<forall>row \<in> set (alert_groups st'). col_fingerprint row = Fingerprint ?g \<longrightarrow>
       col_status row = Status ?g \<and> col_severity row = Some (Severity ?g)
       \<and> col_summary row = Some (Summary ?g) \<and> col_description row = Some (Description ?g)
       \<and> col_labels row = Some (m (Alert_Labels a))
       \<and> col_annotations row = Some (m (Alert_Annotations a))
       \<and> col_updated_at row = Some (UpdatedAt ?g)"
    by blast
  have g: "Fingerprint stored = Fingerprint ?g" "Status stored = Status ?g"
    "Severity stored = Severity ?g" "Summary stored = Summary ?g"
    "Description stored = Description ?g"
    by (subst u(2), simp)+
  have p: "processAlert Sum256 m w a = (Inr stored, w\<lparr>reads := Suc (Suc (reads w)), db := st'\<rparr>)"
    by (simp add: processAlert_upsert u(1))
  show ?thesis
    apply (rule exI [of _ stored])
    apply (rule exI [of _ "w\<lparr>reads := Suc (Suc (reads w)), db := st'\<rparr>"])
    using u(3,4,5) by (simp add: p g) (simp add: alertGroup_of_def)
qed

text \<open>
  Claim C8. Ingesting an alert into an open store succeeds, and the alert group it
  returns, like every row the store then holds under its fingerprint (there is one),
  has: the \<open>severity\<close> label as severity, or \<open>info\<close> when the label is absent or empty;
  the \<open>summary\<close> annotation as summary, or, when that is absent or empty, the
  \<open>alertname\<close> label, or the empty string when that is absent too; the \<open>description\<close>
  annotation as description, or the empty string when it is absent.
\<close>

theorem processAlert_severity_summary_description:
  assumes "\<not> db_closed (db w)"
  shows "\<exists>ag w'. processAlert Sum256 m w a = (Inr ag, w')
           \<and> Severity ag =
               (case map_of (Alert_Labels a) ''severity'' of
                  None \<Rightarrow> ''info'' | Some v \<Rightarrow> if v = '''' then ''info'' else v)
           \<and> Summary ag =
               (let fallback = (case map_of (Alert_Labels a) ''alertname'' of
                                  None \<Rightarrow> '''' | Some n \<Rightarrow> n)
                in case map_of (Alert_Annotations a) ''summary'' of
                     None \<Rightarrow> fallback | Some v \<Rightarrow> if v = '''' then fallback else v)
           \<and> Description ag =
               (case map_of (Alert_Annotations a) ''description'' of
                  None \<Rightarrow> '''' | Some v \<Rightarrow> v)
           \<and> (\<exists>row \<in> set (alert_groups (db w')). col_fingerprint row = Fingerprint ag)
           \<and> (\<forall>row \<in> set (alert_groups (db w')). col_fingerprint row = Fingerprint ag \<longrightarrow>
                 col_severity row = Some (Severity ag) \<and> col_summary row = Some (Summary ag)
                 \<and> col_description row = Some (Description ag))"
proof -
  from processAlert_open [OF assms, of Sum256 m a]
  obtain ag w' where p: "processAlert Sum256 m w a = (Inr ag, w')"
    and v: "Severity ag = alert_severity a" "Summary ag = alert_summary a"
      "Description ag = alert_description a"
    and r: "\<exists>row \<in> set (alert_groups (db w')). col_fingerprint row = Fingerprint ag"
      "\<forall>row \<in> set (alert_groups (db w')). col_fingerprint row = Fingerprint ag \<longrightarrow>
         col_status row = Status ag \<and> col_severity row = Some (Severity ag)
         \<and> col_summary row = Some (Summary ag) \<and> col_description row = Some (Description ag)"
    by blast
  have "alert_severity a =
      (case map_of (Alert_Labels a) ''severity'' of
         None \<Rightarrow> ''info'' | Some v \<Rightarrow> if v = '''' then ''info'' else v)"
    by (simp add: alert_severity_def map_index_def Let_def split: option.splits)
  moreover have "alert_summary a =
      (let fallback = (case map_of (Alert_Labels a) ''alertname'' of None \<Rightarrow> '''' | Some n \<Rightarrow> n)
       in case map_of (Alert_Annotations a) ''summary'' of
            None \<Rightarrow> fallback | Some v \<Rightarrow> if v = '''' then fallback else v)"
    by (simp add: alert_summary_def map_index_def Let_def split: option.splits)
  moreover have "alert_description a =
      (case map_of (Alert_Annotations a) ''description'' of None \<Rightarrow> '''' | Some v \<Rightarrow> v)"
    by (simp add: alert_description_def map_index_def)
  ultimately show ?thesis
    using p v r by (intro exI [of _ ag] exI [of _ w']) simp
qed

theorem processAlert_severity_summary_description_witness:
  "\<not> db_closed (db empty_world) \<and>
   \<not> isl (fst (processAlert fake_Sum256 fake_Marshal empty_world error_rate_resolved)) \<and>
   Severity (projr (fst (processAlert fake_Sum256 fake_Marshal empty_world error_rate_resolved)))
     = ''warning'' \<and>
   Summary (projr (fst (processAlert fake_Sum256 fake_Marshal empty_world error_rate_resolved)))
     = ''HighErrorRate'' \<and>
   Description (projr (fst (processAlert fake_Sum256 fake_Marshal empty_world error_rate_resolved)))
     = '''' \<and>
   Severity (projr (fst (processAlert fake_Sum256 fake_Marshal empty_world unlabelled_alert)))
     = ''info''"
proof -
  have opn: "\<not> db_closed (db empty_world)"
    by (simp add: empty_world_def empty_store_def)
  from processAlert_severity_summary_description [OF opn, of fake_Sum256 fake_Marshal error_rate_resolved]
  obtain ag w' where
    "processAlert fake_Sum256 fake_Marshal empty_world error_rate_resolved = (Inr ag, w')"
    "Severity ag = ''warning''" "Summary ag = ''HighErrorRate''" "Description ag = ''''"
    by (auto simp: error_rate_resolved_def)
  moreover
  from processAlert_severity_summary_description [OF opn, of fake_Sum256 fake_Marshal unlabelled_alert]
  obtain ag0 w0 where
    "processAlert fake_Sum256 fake_Marshal empty_world unlabelled_alert = (Inr ag0, w0)"
    "Severity ag0 = ''info''"
    by (auto simp: unlabelled_alert_def)
  ultimately show ?thesis
    using opn by simp
qed

lemma digest_bytes_fake: "digest_bytes (fake_Sum256 m) = replicate 32 (of_nat (length m))"
  by (simp add: digest_bytes_def fake_Sum256_def Abs_digest_inverse)

lemma replicate_8: "replicate 8 x = [x, x, x, x, x, x, x, x]"
  by (simp add: numeral_eq_Suc)

lemma generateFingerprint_fake_empty: "generateFingerprint fake_Sum256 [] = ''0000000000000000''"
proof -
  have "take 8 (digest_bytes (fake_Sum256 [])) = replicate 8 0"
    by (simp add: digest_bytes_fake)
  then show ?thesis
    by (simp add: generateFingerprint_def Let_def bytes_of_def replicate_8 hex_def hexdigit_def)
qed

text \<open>
  Claim C6, as stated, fails. The claim asks that an event with an empty label map is
  rejected with a validation error. The code has no such check: the alert without labels
  is stored like any other, under the fingerprint of the empty label map, here into an
  empty store and with the stand-in hash.
\<close>

theorem processAlert_unlabelled_counterexample:
  "Alert_Labels unlabelled_alert = [] \<and>
   fst (processAlert fake_Sum256 fake_Marshal empty_world unlabelled_alert) =
     Inr \<lparr> ID = 1, Fingerprint = ''0000000000000000'', Status = ''firing'',
           Severity = ''info'', Summary = '''', Description = '''', Labels = [],
           Annotations = [], EscalationChainID = None, AcknowledgedBy = None,
           AcknowledgedAt = None, ResolvedAt = None, CreatedAt = test_clock 0,
           UpdatedAt = test_clock 1 \<rparr> \<and>
   map col_fingerprint
     (alert_groups (db (snd (processAlert fake_Sum256 fake_Marshal empty_world unlabelled_alert))))
     = [''0000000000000000'']"
  by (simp add: processAlert_upsert upsertAlert_def alertGroup_of_def inserted_row_def
      generateFingerprint_fake_empty unlabelled_alert_def empty_world_def empty_store_def
      alert_severity_def alert_summary_def alert_description_def map_index_def Let_def)

text \<open>
  Claim C6, amended. An event with an empty label map is not rejected: ingesting it into
  an open store succeeds, also as the only alert of a webhook, and stores the alert
  group under the fingerprint of the empty label map, with severity \<open>info\<close> and the
  \<open>summary\<close> annotation (or the empty string) as summary.
\<close>

theorem processAlert_unlabelled_accepted:
  assumes "Alert_Labels a = []" and "\<not> db_closed (db w)"
  shows "\<exists>ag w'. processAlert Sum256 m w a = (Inr ag, w')
           \<and> (\<forall>webhook. Alerts webhook = [a] \<longrightarrow>
                 ProcessPrometheusWebhook Sum256 m w webhook = (Inr [ag], w'))
           \<and> Fingerprint ag = hex (take 8 (digest_bytes (Sum256 [])))
           \<and> Severity ag = ''info''
           \<and> Summary ag = map_index (Alert_Annotations a) ''summary''
           \<and> (\<exists>row \<in> set (alert_groups (db w')).
                 col_fingerprint row = hex (take 8 (digest_bytes (Sum256 [])))
                 \<and> col_severity row = Some ''info'')"
proof -
  from processAlert_open [OF assms(2), of Sum256 m a]
  obtain ag w' where p: "processAlert Sum256 m w a = (Inr ag, w')"
    and v: "Fingerprint ag = generateFingerprint Sum256 (Alert_Labels a)"
      "Severity ag = alert_severity a" "Summary ag = alert_summary a"
    and r: "\<exists>row \<in> set (alert_groups (db w')). col_fingerprint row = Fingerprint ag"
      "\<forall>row \<in> set (alert_groups (db w')). col_fingerprint row = Fingerprint ag \<longrightarrow>
         col_status row = Status ag \<and> col_severity row = Some (Severity ag)
         \<and> col_summary row = Some (Summary ag) \<and> col_description row = Some (Description ag)"
    by blast
  have f: "generateFingerprint Sum256 (Alert_Labels a) = hex (take 8 (digest_bytes (Sum256 [])))"
    using assms(1) by (simp add: generateFingerprint_def Let_def bytes_of_def)
  have s: "alert_severity a = ''info''"
    "alert_summary a = map_index (Alert_Annotations a) ''summary''"
    using assms(1) by (simp_all add: alert_severity_def alert_summary_def map_index_def Let_def)
  have b: "\<forall>webhook. Alerts webhook = [a] \<longrightarrow>
      ProcessPrometheusWebhook Sum256 m w webhook = (Inr [ag], w')"
    by (simp add: ProcessPrometheusWebhook_def p)
  from r v f s have "\<exists>row \<in> set (alert_groups (db w')).
      col_fingerprint row = hex (take 8 (digest_bytes (Sum256 []))) \<and> col_severity row = Some ''info''"
    by auto
  with p b v f s show ?thesis
    by (intro exI [of _ ag] exI [of _ w']) simp
qed

theorem processAlert_unlabelled_accepted_witness:
  "Alert_Labels unlabelled_alert = [] \<and> \<not> db_closed (db empty_world) \<and>
   \<not> isl (fst (processAlert fake_Sum256 fake_Marshal empty_world unlabelled_alert)) \<and>
   Severity (projr (fst (processAlert fake_Sum256 fake_Marshal empty_world unlabelled_alert)))
     = ''info'' \<and>
   Fingerprint (projr (fst (processAlert fake_Sum256 fake_Marshal empty_world unlabelled_alert)))
     = hex (take 8 (digest_bytes (fake_Sum256 [])))"
proof -
  have h: "Alert_Labels unlabelled_alert = []" "\<not> db_closed (db empty_world)"
    by (simp_all add: unlabelled_alert_def empty_world_def empty_store_def)
  from processAlert_unlabelled_accepted [OF h, of fake_Sum256 fake_Marshal]
  obtain ag w' where
    "processAlert fake_Sum256 fake_Marshal empty_world unlabelled_alert = (Inr ag, w')"
    "Severity ag = ''info''" "Fingerprint ag = hex (take 8 (digest_bytes (fake_Sum256 [])))"
    by blast
  with h show ?thesis by simp
qed

section \<open>Notification channels\<close>

text \<open>
  Claim C10. When the request goes out and the server answers with a status code, the
  Slack notifier reports an error for every code but 200, the codes 202 and 204 among
  them, while the webhook notifier reports success for every code from 200 up to 299: on
  the codes 201 to 299 the two channels disagree.
\<close>

theorem Send_success_statuses_differ:
  assumes "slack_json env alert = Inr payload" and "webhook_json env alert = Inr payloadJSON"
    and "\<forall>url. url_error env url = None" and "\<forall>req. Do env req = Inr code"
  shows "(code \<noteq> 200 \<longrightarrow>
            SlackNotifier_Send env slack alert recipient
              = Some (BadStatus ''slack webhook returned status'' code)) \<and>
         (200 \<le> code \<and> code < 300 \<longrightarrow> WebhookNotifier_Send env webhook alert recipient = None) \<and>
         (200 < code \<and> code < 300 \<longrightarrow>
            SlackNotifier_Send env slack alert recipient \<noteq> None \<and>
            WebhookNotifier_Send env webhook alert recipient = None)"
  using assms by (simp add: SlackNotifier_Send_def WebhookNotifier_Send_def StatusOK_def Let_def)

theorem Send_success_statuses_differ_witness:
  "slack_json (server_answering 204) test_alert = Inr ''Test alert'' \<and>
   webhook_json (server_answering 204) test_alert = Inr ''test123'' \<and>
   SlackNotifier_Send (server_answering 204) \<lparr>webhookURL = ''https://hooks.slack.com/test''\<rparr>
     test_alert '''' = Some (BadStatus ''slack webhook returned status'' 204) \<and>
   WebhookNotifier_Send (server_answering 204) \<lparr>timeout = 10 * Second\<rparr>
     test_alert ''https://example.org/hook'' = None"
proof -
  have h: "slack_json (server_answering 204) test_alert = Inr ''Test alert''"
    "webhook_json (server_answering 204) test_alert = Inr ''test123''"
    "\<forall>url. url_error (server_answering 204) url = None"
    "\<forall>req. Do (server_answering 204) req = Inr 204"
    by (simp_all add: server_answering_def test_alert_def)
  have "SlackNotifier_Send (server_answering 204) \<lparr>webhookURL = ''https://hooks.slack.com/test''\<rparr>
      test_alert '''' = Some (BadStatus ''slack webhook returned status'' 204)"
    using Send_success_statuses_differ [OF h,
        of "\<lparr>webhookURL = ''https://hooks.slack.com/test''\<rparr>" "''''" "\<lparr>timeout = 10 * Second\<rparr>"]
    by simp
  moreover have "WebhookNotifier_Send (server_answering 204) \<lparr>timeout = 10 * Second\<rparr>
      test_alert ''https://example.org/hook'' = None"
    using Send_success_statuses_differ [OF h,
        of "\<lparr>webhookURL = ''https://hooks.slack.com/test''\<rparr>" "''https://example.org/hook''"
          "\<lparr>timeout = 10 * Second\<rparr>"]
    by simp
  ultimately show ?thesis
    using h by simp
qed

section \<open>Escalation runs: one active run per fingerprint\<close>

lemma length_filter_update_le:
  assumes "P y \<Longrightarrow> P (xs ! i)"
  shows "length (filter P (xs[i := y])) \<le> length (filter P xs)"
  using assms
proof (induction xs arbitrary: i)
  case Nil
  show ?case by simp
next
  case (Cons x xs)
  show ?case
  proof (cases i)
    case 0
    with Cons.prems show ?thesis by simp
  next
    case (Suc j)
    with Cons.prems have "P y \<Longrightarrow> P (xs ! j)" by simp
    then have "length (filter P (xs[j := y])) \<le> length (filter P xs)"
      by (rule Cons.IH)
    with Suc show ?thesis by simp
  qed
qed

lemma length_filter_map_le:
  assumes "\<And>x. P (f x) \<Longrightarrow> P x"
  shows "length (filter P (map f xs)) \<le> length (filter P xs)"
  using assms by (induction xs) auto

lemma enter_step_fingerprint [simp]: "run_fingerprint (enter_step r i) = run_fingerprint r"
  by (simp add: enter_step_def)

lemma advance_fingerprint [simp]: "run_fingerprint (advance r) = run_fingerprint r"
  by (simp add: advance_def)

lemma advance_terminal: "terminal (run_state r) \<Longrightarrow> advance r = r"
  by (simp add: advance_def)

lemma active_runs_start:
  assumes "length (active_runs runs fp) \<le> 1"
  shows "length (active_runs (start_run runs fp' chain now) fp) \<le> 1"
proof (cases "active_runs runs fp' = []")
  case False
  with assms show ?thesis by (simp add: start_run_def)
next
  case True
  show ?thesis
  proof (cases "fp = fp'")
    case same: True
    with True show ?thesis by (simp add: start_run_def active_runs_def)
  next
    case False
    with True assms show ?thesis by (simp add: start_run_def active_runs_def)
  qed
qed

lemma active_runs_step:
  "length (active_runs (runs[i := advance (runs ! i)]) fp) \<le> length (active_runs runs fp)"
  unfolding active_runs_def
proof (rule length_filter_update_le)
  assume a: "run_fingerprint (advance (runs ! i)) = fp \<and> \<not> terminal (run_state (advance (runs ! i)))"
  then have "\<not> terminal (run_state (runs ! i))"
    using advance_terminal [of "runs ! i"] by auto
  with a show "run_fingerprint (runs ! i) = fp \<and> \<not> terminal (run_state (runs ! i))"
    by simp
qed

lemma active_runs_stop:
  "length (active_runs (stop_runs runs fp' s) fp) \<le> length (active_runs runs fp)"
  unfolding active_runs_def stop_runs_def
  by (rule length_filter_map_le) (auto split: if_splits)

lemma active_runs_event:
  assumes "length (active_runs runs fp) \<le> 1"
  shows "length (active_runs (apply_event runs ev) fp) \<le> 1"
proof (cases ev)
  case (StartRun fp' chain now)
  with active_runs_start [OF assms, of fp' chain now] show ?thesis by simp
next
  case (StepDone i)
  with assms active_runs_step [of runs i fp] show ?thesis by simp
next
  case (Acknowledged fp')
  with assms active_runs_stop [of runs fp' stopped_acknowledged fp] show ?thesis by simp
next
  case (Resolved fp')
  with assms active_runs_stop [of runs fp' stopped_resolved fp] show ?thesis by simp
qed

lemma active_runs_events:
  assumes "length (active_runs runs fp) \<le> 1"
  shows "length (active_runs (foldl apply_event runs evs) fp) \<le> 1"
  using assms
proof (induction evs arbitrary: runs)
  case Nil
  then show ?case by simp
next
  case (Cons ev evs)
  from Cons.IH [OF active_runs_event [OF Cons.prems, of ev]] show ?case by simp
qed

text \<open>
  Claim C9. In the engine modelled from the specification, whatever events have
  happened, a fingerprint has at most one non-terminal run; and starting a run for a
  fingerprint that has a non-terminal run changes nothing: the runs are the same as if
  the start had not been asked for, now and after any later events.
\<close>

theorem one_active_run_per_fingerprint:
  "length (active_runs (engine_after evs) fp) \<le> 1 \<and>
   (active_runs (engine_after evs) fp \<noteq> [] \<longrightarrow>
      engine_after (evs @ [StartRun fp chain now]) = engine_after evs \<and>
      engine_after (evs @ StartRun fp chain now # later) = engine_after (evs @ later))"
proof -
  have "length (active_runs (engine_after evs) fp) \<le> 1"
    unfolding engine_after_def by (rule active_runs_events) (simp add: active_runs_def)
  moreover have "engine_after (evs @ [StartRun fp chain now]) = engine_after evs"
    and "engine_after (evs @ StartRun fp chain now # later) = engine_after (evs @ later)"
    if "active_runs (engine_after evs) fp \<noteq> []"
    using that by (simp_all add: engine_after_def start_run_def)
  ultimately show ?thesis by blast
qed

theorem one_active_run_per_fingerprint_witness:
  "active_runs (engine_after [StartRun ''fp1'' two_step_chain 0, StepDone 0]) ''fp1'' \<noteq> [] \<and>
   length (active_runs (engine_after [StartRun ''fp1'' two_step_chain 0, StepDone 0]) ''fp1'') \<le> 1 \<and>
   engine_after ([StartRun ''fp1'' two_step_chain 0, StepDone 0]
                   @ StartRun ''fp1'' two_step_chain 100 # [StepDone 0, StepDone 0])
     = engine_after ([StartRun ''fp1'' two_step_chain 0, StepDone 0] @ [StepDone 0, StepDone 0])"
proof -
  have a: "active_runs (engine_after [StartRun ''fp1'' two_step_chain 0, StepDone 0]) ''fp1'' \<noteq> []"
    by (simp add: engine_after_def start_run_def active_runs_def advance_def enter_step_def
        two_step_chain_def)
  with one_active_run_per_fingerprint
    [of "[StartRun ''fp1'' two_step_chain 0, StepDone 0]" "''fp1''" two_step_chain 100
      "[StepDone 0, StepDone 0]"]
  show ?thesis by blast
qed


end
